theory Spec2Isabelle
  imports Main
begin

section \<open>Errors and results\<close>

text \<open>
  The module \<^verbatim>\<open>lbnlp/nlp/ner.py\<close> raises no exception of its own. An exception
  reaches the caller in two ways: an external object (the tagging model, the text
  processor, the normalizer) raises inside one of its methods, or the subscript
  \<^verbatim>\<open>[0]\<close> of \<^verbatim>\<open>normalize_entities\<close> is applied to an empty list. Both are values
  of \<open>error\<close>; a method returns \<open>Inl e\<close> where the Python raises \<open>e\<close>.
\<close>

datatype error = Raised string | IndexError

type_synonym 'a result = "error + 'a"

section \<open>Data model\<close>

type_synonym token = string
type_synonym tag = string
type_synonym tagged_sent = "(token \<times> tag) list"
type_synonym tagged_doc = "tagged_sent list"

subsection \<open>The configuration object\<close>

text \<open>
  The attributes that \<^verbatim>\<open>Configure.__init__\<close> and \<^verbatim>\<open>NERClassifier.__init__\<close> assign.
  \<^verbatim>\<open>dim_word\<close> and \<^verbatim>\<open>dim_char\<close> are not assigned by \<^verbatim>\<open>Configure.__init__\<close> (they are
  left to the parent class), hence \<open>None\<close> until the classifier's constructor sets them.
\<close>

record config =
  dim_word :: "nat option"
  dim_char :: "nat option"
  dir_data :: string
  dir_final_model :: string
  filename_words :: string
  filename_tags :: string
  filename_chars :: string
  filename_glove :: string
  filename_trimmed :: string
  dir_output :: string

subsection \<open>The external objects\<close>

text \<open>
  The tagging model, the normalizer and the processor are instances of classes of other
  packages. Each is a record of the methods this module calls on it. A method that only
  computes a result is a function of its arguments that returns the result or the error
  it raises. The model also has methods that work on its graph and session; that state is
  the field \<open>internal\<close>, of a type \<open>'i\<close> this module knows nothing about, and such a method
  returns the new internal state together with the error it raised, if any.
\<close>

record 'i model_obj =
  internal :: 'i
  predict :: "'i \<Rightarrow> token list \<Rightarrow> tag list result"
  build :: "'i \<Rightarrow> error option \<times> 'i"
  restore_session :: "'i \<Rightarrow> string \<Rightarrow> error option \<times> 'i"
  save_prediction_model :: "'i \<Rightarrow> string \<Rightarrow> error option \<times> 'i"
  close_session :: "'i \<Rightarrow> error option \<times> 'i"

text \<open>The class of the model object: the two classes \<^verbatim>\<open>__init__\<close> chooses between.\<close>

datatype 'i ner_model = NERServingModel "'i model_obj" | NERModel "'i model_obj"

datatype variant = Remote | Local

fun variant_of :: "'i ner_model \<Rightarrow> variant" where
  "variant_of (NERServingModel _) = Remote"
| "variant_of (NERModel _) = Local"

fun obj :: "'i ner_model \<Rightarrow> 'i model_obj" where
  "obj (NERServingModel ob) = ob"
| "obj (NERModel ob) = ob"

text \<open>A method that works in place changes the internal state of the object, never its class.\<close>

fun set_internal :: "'i ner_model \<Rightarrow> 'i \<Rightarrow> 'i ner_model" where
  "set_internal (NERServingModel ob) i = NERServingModel (ob\<lparr>internal := i\<rparr>)"
| "set_internal (NERModel ob) i = NERModel (ob\<lparr>internal := i\<rparr>)"

text \<open>
  \<^verbatim>\<open>Normalizer\<close>: \<^verbatim>\<open>_concatenate_ents(tagged_doc)\<close> and \<^verbatim>\<open>normalize(docs, tagged_docs)\<close>.
  \<^verbatim>\<open>MatScholarProcess\<close>: \<^verbatim>\<open>tokenize(text)\<close> and \<^verbatim>\<open>process(sent, convert_num=...)\<close>, which returns
  a pair whose second component this module discards. The keyword argument \<^verbatim>\<open>convert_num\<close>
  is \<open>None\<close> where the call leaves it to its default. The methods \<^verbatim>\<open>_concatenate_ents\<close> and
  \<^verbatim>\<open>normalize\<close> are the fields \<open>concatenate_ents\<close> and \<open>normalize_docs\<close>.
\<close>

record normalizer_obj =
  concatenate_ents :: "tagged_doc \<Rightarrow> tagged_doc result"
  normalize_docs :: "string list \<Rightarrow> tagged_doc list \<Rightarrow> tagged_doc list result"

record processor_obj =
  tokenize :: "string \<Rightarrow> token list list result"
  process :: "token list \<Rightarrow> bool option \<Rightarrow> (token list \<times> token list) result"

subsection \<open>The classifier\<close>

record 'i classifier =
  config :: config
  api_url :: "string option"
  model :: "'i ner_model"
  normalizer :: normalizer_obj
  processor :: processor_obj

text \<open>\<^verbatim>\<open>self.model.predict(sequence)\<close>\<close>

definition model_predict :: "'i ner_model \<Rightarrow> token list \<Rightarrow> tag list result" where
  "model_predict m sequence = predict (obj m) (internal (obj m)) sequence"

section \<open>The methods of \<^verbatim>\<open>NERClassifier\<close>\<close>

text \<open>
  Every method takes \<open>self\<close> and returns its result together with \<open>self\<close> as the call
  leaves it.
\<close>

definition tag_sequence ::
  "'i classifier \<Rightarrow> token list \<Rightarrow> tagged_sent result \<times> 'i classifier" where
  "tag_sequence self sequence =
     (case model_predict (model self) sequence of
        Inl e \<Rightarrow> (Inl e, self)
      | Inr tags \<Rightarrow> (Inr (map (\<lambda>(token, tag). (token, tag)) (zip sequence tags)), self))"

subsection \<open>\<^verbatim>\<open>_preprocess\<close>\<close>

text \<open>
  The loop over the sentences of \<^verbatim>\<open>_preprocess\<close>, with the two lists it appends to. The
  method is \<open>preprocess\<close> here, an identifier cannot start with an underscore.
\<close>

fun preprocess_loop ::
  "'i classifier \<Rightarrow> token list list \<Rightarrow> token list list \<Rightarrow> token list list \<Rightarrow>
   (token list list \<times> token list list) result \<times> 'i classifier" where
  "preprocess_loop self [] processed_sents processed_sents_num =
     (Inr (processed_sents, processed_sents_num), self)"
| "preprocess_loop self (sent # sents) processed_sents processed_sents_num =
     (case process (processor self) sent None of
        Inl e \<Rightarrow> (Inl e, self)
      | Inr (processed, _) \<Rightarrow>
          (case process (processor self) sent (Some False) of
             Inl e \<Rightarrow> (Inl e, self)
           | Inr (processed_num, _) \<Rightarrow>
               preprocess_loop self sents
                 (processed_sents @ [processed]) (processed_sents_num @ [processed_num])))"

definition preprocess ::
  "'i classifier \<Rightarrow> string \<Rightarrow> (token list list \<times> token list list) result \<times> 'i classifier" where
  "preprocess self text =
     (case tokenize (processor self) text of
        Inl e \<Rightarrow> (Inl e, self)
      | Inr sents \<Rightarrow> preprocess_loop self sents [] [])"

subsection \<open>\<^verbatim>\<open>tag_doc\<close>\<close>

text \<open>
  The loop over the pairs of processed sentences, with the list it appends to. Python's
  \<^verbatim>\<open>zip\<close> stops at the shortest of its arguments and raises nothing when they differ in
  length, as the \<open>zip\<close> of HOL, nested for three arguments.
\<close>

fun tag_doc_loop ::
  "'i classifier \<Rightarrow> (token list \<times> token list) list \<Rightarrow> tagged_doc \<Rightarrow>
   tagged_doc result \<times> 'i classifier" where
  "tag_doc_loop self [] tagged_doc = (Inr tagged_doc, self)"
| "tag_doc_loop self ((sent, sent_num) # rest) tagged_doc =
     (case model_predict (model self) sent of
        Inl e \<Rightarrow> (Inl e, self)
      | Inr tags \<Rightarrow>
          tag_doc_loop self rest
            (tagged_doc @
             [map (\<lambda>(token, token_num, tag).
                     if token \<noteq> ''<nUm>'' then (token, tag) else (token_num, tag))
                  (zip sent (zip sent_num tags))]))"

definition tag_doc :: "'i classifier \<Rightarrow> string \<Rightarrow> tagged_doc result \<times> 'i classifier" where
  "tag_doc self doc =
     (case preprocess self doc of
        (Inl e, self') \<Rightarrow> (Inl e, self')
      | (Inr (processed_sents, processed_sents_num), self') \<Rightarrow>
          tag_doc_loop self' (zip processed_sents processed_sents_num) [])"

subsection \<open>\<^verbatim>\<open>concatenate_entities\<close> and \<^verbatim>\<open>normalize_entities\<close>\<close>

definition concatenate_entities ::
  "'i classifier \<Rightarrow> tagged_doc \<Rightarrow> tagged_doc result \<times> 'i classifier" where
  "concatenate_entities self tagged_doc =
     (concatenate_ents (normalizer self) tagged_doc, self)"

text \<open>The subscript \<^verbatim>\<open>[0]\<close> raises \<^verbatim>\<open>IndexError\<close> on an empty list.\<close>

definition normalize_entities ::
  "'i classifier \<Rightarrow> string \<Rightarrow> tagged_doc \<Rightarrow> tagged_doc result \<times> 'i classifier" where
  "normalize_entities self doc tagged_doc =
     (case normalize_docs (normalizer self) [doc] [tagged_doc] of
        Inl e \<Rightarrow> (Inl e, self)
      | Inr [] \<Rightarrow> (Inl IndexError, self)
      | Inr (normalized # _) \<Rightarrow> (Inr normalized, self))"

subsection \<open>\<^verbatim>\<open>tag_docs\<close> and \<^verbatim>\<open>as_iob\<close>\<close>

text \<open>
  \<^verbatim>\<open>tag_docs\<close> does not call \<^verbatim>\<open>tag_doc\<close>: it has its own copy of the loop over the
  sentences, inside its loop over the documents.
\<close>

fun tag_docs_inner ::
  "'i classifier \<Rightarrow> (token list \<times> token list) list \<Rightarrow> tagged_doc \<Rightarrow>
   tagged_doc result \<times> 'i classifier" where
  "tag_docs_inner self [] tagged_doc = (Inr tagged_doc, self)"
| "tag_docs_inner self ((sent, sent_num) # rest) tagged_doc =
     (case model_predict (model self) sent of
        Inl e \<Rightarrow> (Inl e, self)
      | Inr tags \<Rightarrow>
          tag_docs_inner self rest
            (tagged_doc @
             [map (\<lambda>(token, token_num, tag).
                     if token \<noteq> ''<nUm>'' then (token, tag) else (token_num, tag))
                  (zip sent (zip sent_num tags))]))"

fun tag_docs_loop ::
  "'i classifier \<Rightarrow> string list \<Rightarrow> tagged_doc list \<Rightarrow>
   tagged_doc list result \<times> 'i classifier" where
  "tag_docs_loop self [] tagged_docs = (Inr tagged_docs, self)"
| "tag_docs_loop self (doc # docs) tagged_docs =
     (case preprocess self doc of
        (Inl e, self') \<Rightarrow> (Inl e, self')
      | (Inr (processed_sents, processed_sents_num), self') \<Rightarrow>
          (case tag_docs_inner self' (zip processed_sents processed_sents_num) [] of
             (Inl e, self'') \<Rightarrow> (Inl e, self'')
           | (Inr tagged_doc, self'') \<Rightarrow>
               tag_docs_loop self'' docs (tagged_docs @ [tagged_doc])))"

definition tag_docs ::
  "'i classifier \<Rightarrow> string list \<Rightarrow> tagged_doc list result \<times> 'i classifier" where
  "tag_docs self docs = tag_docs_loop self docs []"

definition as_iob ::
  "'i classifier \<Rightarrow> string list \<Rightarrow> tagged_doc list result \<times> 'i classifier" where
  "as_iob self docs = tag_docs self docs"

subsection \<open>\<^verbatim>\<open>as_concatenated\<close> and \<^verbatim>\<open>as_normalized\<close>\<close>

fun as_concatenated_loop ::
  "'i classifier \<Rightarrow> tagged_doc list \<Rightarrow> tagged_doc list \<Rightarrow>
   tagged_doc list result \<times> 'i classifier" where
  "as_concatenated_loop self [] concatenated = (Inr concatenated, self)"
| "as_concatenated_loop self (doc # tagged_docs) concatenated =
     (case concatenate_ents (normalizer self) doc of
        Inl e \<Rightarrow> (Inl e, self)
      | Inr conc \<Rightarrow> as_concatenated_loop self tagged_docs (concatenated @ [conc]))"

definition as_concatenated ::
  "'i classifier \<Rightarrow> string list \<Rightarrow> tagged_doc list result \<times> 'i classifier" where
  "as_concatenated self docs =
     (case tag_docs self docs of
        (Inl e, self') \<Rightarrow> (Inl e, self')
      | (Inr tagged_docs, self') \<Rightarrow> as_concatenated_loop self' tagged_docs [])"

definition as_normalized ::
  "'i classifier \<Rightarrow> string list \<Rightarrow> tagged_doc list result \<times> 'i classifier" where
  "as_normalized self docs =
     (case tag_docs self docs of
        (Inl e, self') \<Rightarrow> (Inl e, self')
      | (Inr tagged_docs, self') \<Rightarrow> (normalize_docs (normalizer self') docs tagged_docs, self'))"

subsection \<open>\<^verbatim>\<open>save_model\<close> and \<^verbatim>\<open>close_session\<close>\<close>

text \<open>
  The calls \<^verbatim>\<open>self.model.build()\<close>, \<^verbatim>\<open>self.model.restore_session(d)\<close>,
  \<^verbatim>\<open>self.model.save_prediction_model(d)\<close> and \<^verbatim>\<open>self.model.close_session()\<close>: each returns
  the error it raised, if any, and the model object with its new internal state.
\<close>

definition model_build :: "'i ner_model \<Rightarrow> error option \<times> 'i ner_model" where
  "model_build m =
     (case build (obj m) (internal (obj m)) of (r, i) \<Rightarrow> (r, set_internal m i))"

definition model_restore_session :: "'i ner_model \<Rightarrow> string \<Rightarrow> error option \<times> 'i ner_model" where
  "model_restore_session m d =
     (case restore_session (obj m) (internal (obj m)) d of (r, i) \<Rightarrow> (r, set_internal m i))"

definition model_save_prediction_model ::
  "'i ner_model \<Rightarrow> string \<Rightarrow> error option \<times> 'i ner_model" where
  "model_save_prediction_model m d =
     (case save_prediction_model (obj m) (internal (obj m)) d of
        (r, i) \<Rightarrow> (r, set_internal m i))"

definition model_close_session :: "'i ner_model \<Rightarrow> error option \<times> 'i ner_model" where
  "model_close_session m =
     (case close_session (obj m) (internal (obj m)) of (r, i) \<Rightarrow> (r, set_internal m i))"

text \<open>
  The field \<open>model\<close> of the result holds the same object after the calls worked on it in
  place; the method assigns no attribute. The method \<^verbatim>\<open>close_session\<close> of the classifier
  is \<open>close_session_m\<close>, the name \<open>close_session\<close> being that of the method of the model.
\<close>

definition save_model :: "'i classifier \<Rightarrow> string \<Rightarrow> unit result \<times> 'i classifier" where
  "save_model self save_dir =
     (case model_build (model self) of
        (Some e, m1) \<Rightarrow> (Inl e, self\<lparr>model := m1\<rparr>)
      | (None, m1) \<Rightarrow>
          (case model_restore_session m1 (dir_final_model (config self)) of
             (Some e, m2) \<Rightarrow> (Inl e, self\<lparr>model := m2\<rparr>)
           | (None, m2) \<Rightarrow>
               (case model_save_prediction_model m2 save_dir of
                  (Some e, m3) \<Rightarrow> (Inl e, self\<lparr>model := m3\<rparr>)
                | (None, m3) \<Rightarrow> (Inr (), self\<lparr>model := m3\<rparr>))))"

definition close_session_m :: "'i classifier \<Rightarrow> unit result \<times> 'i classifier" where
  "close_session_m self =
     (case model_close_session (model self) of
        (Some e, m1) \<Rightarrow> (Inl e, self\<lparr>model := m1\<rparr>)
      | (None, m1) \<Rightarrow> (Inr (), self\<lparr>model := m1\<rparr>))"

section \<open>Construction\<close>

text \<open>
  \<^verbatim>\<open>os.path.join(a, b)\<close> on a POSIX system: an absolute \<open>b\<close> replaces \<open>a\<close>; otherwise \<open>b\<close>
  is appended, after a separator unless \<open>a\<close> is empty or ends with one.
\<close>

definition path_join :: "string \<Rightarrow> string \<Rightarrow> string" where
  "path_join a b =
     (if take 1 b = ''/'' then b
      else if a = [] \<or> last a = CHR ''/'' then a @ b
      else a @ ''/'' @ b)"

text \<open>
  What the constructors use of the other packages and of the process: the constructor of
  the parent class \<^verbatim>\<open>Config\<close> (called with the object and \<^verbatim>\<open>log_path\<close>; it may raise),
  \<^verbatim>\<open>tf.reset_default_graph()\<close>, and the constructors of the two model classes, of
  \<^verbatim>\<open>Normalizer\<close> and of \<^verbatim>\<open>MatScholarProcess\<close>.
\<close>

record 'i library =
  Config_init :: "config \<Rightarrow> string \<Rightarrow> error option"
  reset_default_graph :: "error option"
  new_NERServingModel :: "config \<Rightarrow> string \<Rightarrow> 'i model_obj result"
  new_NERModel :: "config \<Rightarrow> 'i model_obj result"
  new_Normalizer :: "normalizer_obj result"
  new_MatScholarProcess :: "processor_obj result"

text \<open>\<^verbatim>\<open>Configure.__init__\<close>; \<open>LOCAL_DIR\<close> is \<^verbatim>\<open>os.path.dirname(__file__)\<close>.\<close>

definition Configure :: "'i library \<Rightarrow> string \<Rightarrow> config result" where
  "Configure lib LOCAL_DIR =
     (let dir_data' = path_join LOCAL_DIR ''models/ner'';
          self = \<lparr>dim_word = None,
                  dim_char = None,
                  dir_data = dir_data',
                  dir_final_model = path_join dir_data' ''model.weights/'',
                  filename_words = path_join dir_data' ''words.txt'',
                  filename_tags = path_join dir_data' ''tags.txt'',
                  filename_chars = path_join dir_data' ''chars.txt'',
                  filename_glove = path_join dir_data' ''w2v.txt'',
                  filename_trimmed = path_join dir_data' ''glove.6B.200d.trimmed.npz'',
                  dir_output = path_join dir_data' ''results/''\<rparr>;
          log_path = path_join dir_data' ''logs.txt''
      in case Config_init lib self log_path of
           Some e \<Rightarrow> Inl e
         | None \<Rightarrow> Inr self)"

text \<open>
  The branch of \<^verbatim>\<open>NERClassifier.__init__\<close> that loads the model: \<^verbatim>\<open>os.environ.get\<close>
  gives \<open>None\<close> exactly when the variable is absent, and the test is \<^verbatim>\<open>is not None\<close>.
\<close>

definition load_model :: "'i library \<Rightarrow> config \<Rightarrow> string option \<Rightarrow> 'i ner_model result" where
  "load_model lib cfg url_opt =
     (case url_opt of
        Some url \<Rightarrow>
          (case new_NERServingModel lib cfg url of
             Inl e \<Rightarrow> Inl e
           | Inr ob \<Rightarrow> Inr (NERServingModel ob))
      | None \<Rightarrow>
          (case new_NERModel lib cfg of
             Inl e \<Rightarrow> Inl e
           | Inr ob \<Rightarrow>
               (case model_build (NERModel ob) of
                  (Some e, _) \<Rightarrow> Inl e
                | (None, m1) \<Rightarrow>
                    (case model_restore_session m1 (dir_final_model cfg) of
                       (Some e, _) \<Rightarrow> Inl e
                     | (None, m2) \<Rightarrow> Inr m2))))"

text \<open>\<^verbatim>\<open>NERClassifier.__init__\<close>; \<open>environ\<close> is \<^verbatim>\<open>os.environ\<close>.\<close>

definition NERClassifier ::
  "'i library \<Rightarrow> string \<Rightarrow> (string \<rightharpoonup> string) \<Rightarrow> 'i classifier result" where
  "NERClassifier lib LOCAL_DIR environ =
     (case Configure lib LOCAL_DIR of
        Inl e \<Rightarrow> Inl e
      | Inr cfg0 \<Rightarrow>
          (let cfg = cfg0\<lparr>dim_word := Some 250, dim_char := Some 50\<rparr>;
               url_opt = environ ''TF_SERVING_URL''
           in case reset_default_graph lib of
                Some e \<Rightarrow> Inl e
              | None \<Rightarrow>
                  (case load_model lib cfg url_opt of
                     Inl e \<Rightarrow> Inl e
                   | Inr m \<Rightarrow>
                       (case new_Normalizer lib of
                          Inl e \<Rightarrow> Inl e
                        | Inr n \<Rightarrow>
                            (case new_MatScholarProcess lib of
                               Inl e \<Rightarrow> Inl e
                             | Inr p \<Rightarrow>
                                 Inr \<lparr>config = cfg, api_url = url_opt, model = m,
                                      normalizer = n, processor = p\<rparr>)))))"

subsection \<open>The public operations as calls\<close>

text \<open>
  The ten public methods, as calls with their arguments; \<open>perform\<close> gives the classifier
  as a call leaves it, whether the call returned or raised.
\<close>

datatype call =
    Tag_sequence "token list"
  | Tag_doc string
  | Concatenate_entities tagged_doc
  | Normalize_entities string tagged_doc
  | Tag_docs "string list"
  | As_iob "string list"
  | As_concatenated "string list"
  | As_normalized "string list"
  | Save_model string
  | Close_session

fun perform :: "call \<Rightarrow> 'i classifier \<Rightarrow> 'i classifier" where
  "perform (Tag_sequence sequence) self = snd (tag_sequence self sequence)"
| "perform (Tag_doc doc) self = snd (tag_doc self doc)"
| "perform (Concatenate_entities tagged_doc) self = snd (concatenate_entities self tagged_doc)"
| "perform (Normalize_entities doc tagged_doc) self = snd (normalize_entities self doc tagged_doc)"
| "perform (Tag_docs docs) self = snd (tag_docs self docs)"
| "perform (As_iob docs) self = snd (as_iob self docs)"
| "perform (As_concatenated docs) self = snd (as_concatenated self docs)"
| "perform (As_normalized docs) self = snd (as_normalized self docs)"
| "perform (Save_model save_dir) self = snd (save_model self save_dir)"
| "perform (Close_session) self = snd (close_session_m self)"

text \<open>
  The calls of the tagging, concatenation and normalization methods: all the public
  methods but \<^verbatim>\<open>save_model\<close> and \<^verbatim>\<open>close_session\<close>.
\<close>

fun tagging_call :: "call \<Rightarrow> bool" where
  "tagging_call (Save_model _) = False"
| "tagging_call Close_session = False"
| "tagging_call _ = True"

section \<open>Reference definitions\<close>

text \<open>
  The list comprehension of lines 70--71 and 118--119, named for the statements below:
  the loops above contain it as the source does.
\<close>

definition tagged_sentence :: "token list \<Rightarrow> token list \<Rightarrow> tag list \<Rightarrow> tagged_sent" where
  "tagged_sentence sent sent_num tags =
     map (\<lambda>(token, token_num, tag).
            if token \<noteq> ''<nUm>'' then (token, tag) else (token_num, tag))
         (zip sent (zip sent_num tags))"

text \<open>
  A Python list comprehension \<^verbatim>\<open>[f(x) for x in xs]\<close> over a method \<open>f\<close> of the
  classifier: the calls run in order, and the first one that raises ends the evaluation
  with its error.
\<close>

fun list_comprehension ::
  "('s \<Rightarrow> 'a \<Rightarrow> 'b result \<times> 's) \<Rightarrow> 'a list \<Rightarrow> 's \<Rightarrow> 'b list result \<times> 's" where
  "list_comprehension f [] self = (Inr [], self)"
| "list_comprehension f (x # xs) self =
     (case f self x of
        (Inl e, self') \<Rightarrow> (Inl e, self')
      | (Inr y, self') \<Rightarrow>
          (case list_comprehension f xs self' of
             (Inl e, self'') \<Rightarrow> (Inl e, self'')
           | (Inr ys, self'') \<Rightarrow> (Inr (y # ys), self'')))"

section \<open>A classifier to run\<close>

text \<open>
  Stand-ins for the external objects, to evaluate the methods on concrete documents. The
  tokenizer splits a text into sentences at full stops and a sentence into tokens at
  spaces; the processor replaces a token made of digits by the sentinel unless
  \<^verbatim>\<open>convert_num=False\<close>; the internal state of the model is the log of the calls that
  worked on it.
\<close>

fun split_on :: "char \<Rightarrow> string \<Rightarrow> string list" where
  "split_on c [] = [[]]"
| "split_on c (x # xs) =
     (if x = c then [] # split_on c xs
      else (case split_on c xs of
              [] \<Rightarrow> [[x]]
            | w # ws \<Rightarrow> (x # w) # ws))"

definition demo_tokenize :: "string \<Rightarrow> token list list result" where
  "demo_tokenize text =
     Inr (filter (\<lambda>s. s \<noteq> [])
            (map (\<lambda>s. filter (\<lambda>w. w \<noteq> []) (split_on CHR '' '' s)) (split_on CHR ''.'' text)))"

definition is_number :: "string \<Rightarrow> bool" where
  "is_number w = (w \<noteq> [] \<and> list_all (\<lambda>c. c \<in> set ''0123456789'') w)"

definition demo_process :: "token list \<Rightarrow> bool option \<Rightarrow> (token list \<times> token list) result" where
  "demo_process sent convert_num =
     (if convert_num = Some False then Inr (sent, [])
      else Inr (map (\<lambda>w. if is_number w then ''<nUm>'' else w) sent, []))"

definition demo_predict :: "token list \<Rightarrow> tag list result" where
  "demo_predict sent = Inr (map (\<lambda>w. if w = ''<nUm>'' then ''B-PVL'' else ''O'') sent)"

definition demo_obj :: "(token list \<Rightarrow> tag list result) \<Rightarrow> string list model_obj" where
  "demo_obj p =
     \<lparr>internal = [],
      predict = (\<lambda>_. p),
      build = (\<lambda>i. (None, i @ [''build''])),
      restore_session = (\<lambda>i d. (None, i @ [''restore '' @ d])),
      save_prediction_model = (\<lambda>i d. (None, i @ [''save '' @ d])),
      close_session = (\<lambda>i. (None, i @ [''close'']))\<rparr>"

definition demo_normalizer :: normalizer_obj where
  "demo_normalizer =
     \<lparr>concatenate_ents = (\<lambda>tagged_doc. Inr [concat tagged_doc]),
      normalize_docs = (\<lambda>docs tagged_docs. Inr (map (map (map (\<lambda>(w, t). (w, ''N-'' @ t)))) tagged_docs))\<rparr>"

definition demo_library ::
  "(token list \<Rightarrow> tag list result) \<Rightarrow>
   (token list \<Rightarrow> bool option \<Rightarrow> (token list \<times> token list) result) \<Rightarrow> string list library" where
  "demo_library p pr =
     \<lparr>Config_init = (\<lambda>_ _. None),
      reset_default_graph = None,
      new_NERServingModel = (\<lambda>_ _. Inr (demo_obj p)),
      new_NERModel = (\<lambda>_. Inr (demo_obj p)),
      new_Normalizer = Inr demo_normalizer,
      new_MatScholarProcess = Inr \<lparr>tokenize = demo_tokenize, process = pr\<rparr>\<rparr>"

definition demo_config :: config where
  "demo_config =
     \<lparr>dim_word = Some 250,
      dim_char = Some 50,
      dir_data = ''/srv/lbnlp/nlp/models/ner'',
      dir_final_model = ''/srv/lbnlp/nlp/models/ner/model.weights/'',
      filename_words = ''/srv/lbnlp/nlp/models/ner/words.txt'',
      filename_tags = ''/srv/lbnlp/nlp/models/ner/tags.txt'',
      filename_chars = ''/srv/lbnlp/nlp/models/ner/chars.txt'',
      filename_glove = ''/srv/lbnlp/nlp/models/ner/w2v.txt'',
      filename_trimmed = ''/srv/lbnlp/nlp/models/ner/glove.6B.200d.trimmed.npz'',
      dir_output = ''/srv/lbnlp/nlp/models/ner/results/''\<rparr>"

text \<open>
  The classifier that \<^verbatim>\<open>NERClassifier()\<close> builds from \<open>demo_library p pr\<close> in the directory
  \<^verbatim>\<open>/srv/lbnlp/nlp\<close> when \<^verbatim>\<open>TF_SERVING_URL\<close> is not set.
\<close>

definition demo ::
  "(token list \<Rightarrow> tag list result) \<Rightarrow>
   (token list \<Rightarrow> bool option \<Rightarrow> (token list \<times> token list) result) \<Rightarrow> string list classifier" where
  "demo p pr =
     \<lparr>config = demo_config,
      api_url = None,
      model = NERModel ((demo_obj p)
                \<lparr>internal := [''build'', ''restore /srv/lbnlp/nlp/models/ner/model.weights/'']\<rparr>),
      normalizer = demo_normalizer,
      processor = \<lparr>tokenize = demo_tokenize, process = pr\<rparr>\<rparr>"

text \<open>
  The classifier that \<^verbatim>\<open>NERClassifier()\<close> builds from \<open>demo_library p pr\<close> when
  \<^verbatim>\<open>TF_SERVING_URL\<close> is set to \<open>url\<close>.
\<close>

definition demo_remote ::
  "(token list \<Rightarrow> tag list result) \<Rightarrow>
   (token list \<Rightarrow> bool option \<Rightarrow> (token list \<times> token list) result) \<Rightarrow> string \<Rightarrow>
   string list classifier" where
  "demo_remote p pr url =
     \<lparr>config = demo_config,
      api_url = Some url,
      model = NERServingModel (demo_obj p),
      normalizer = demo_normalizer,
      processor = \<lparr>tokenize = demo_tokenize, process = pr\<rparr>\<rparr>"

text \<open>
  Three external objects that break what the pipeline expects of them: a model that
  answers with one tag whatever the sentence, a model that raises on a sentence that
  contains the token \<^verbatim>\<open>melted\<close>, and a processor whose numeric-preserved pass loses the
  last token of the sentence.
\<close>

definition short_predict :: "token list \<Rightarrow> tag list result" where
  "short_predict sent = Inr (take 1 (map (\<lambda>w. ''O'') sent))"

definition failing_predict :: "token list \<Rightarrow> tag list result" where
  "failing_predict sent =
     (if ''melted'' \<in> set sent then Inl (Raised ''timeout'') else demo_predict sent)"

definition lossy_process :: "token list \<Rightarrow> bool option \<Rightarrow> (token list \<times> token list) result" where
  "lossy_process sent convert_num =
     (if convert_num = Some False then Inr (butlast sent, [])
      else demo_process sent convert_num)"


section \<open>The loops\<close>

subsection \<open>No method of the tagging pipeline changes \<open>self\<close>\<close>

lemma snd_preprocess_loop: "snd (preprocess_loop self sents ps pn) = self"
  by (induction sents arbitrary: ps pn) (auto split: sum.splits prod.splits)

lemma snd_preprocess: "snd (preprocess self text) = self"
  by (simp add: preprocess_def snd_preprocess_loop split: sum.splits)

lemma preprocess_self: "preprocess self text = (r, self') \<Longrightarrow> self' = self"
  using snd_preprocess[of self "text"] by simp

lemma snd_tag_doc_loop: "snd (tag_doc_loop self zs acc) = self"
  by (induction self zs acc rule: tag_doc_loop.induct) (auto split: sum.splits)

lemma snd_tag_doc: "snd (tag_doc self doc) = self"
  by (auto simp: tag_doc_def snd_tag_doc_loop split: prod.splits sum.splits dest: preprocess_self)

lemma tag_doc_self: "tag_doc self doc = (r, self') \<Longrightarrow> self' = self"
  using snd_tag_doc[of self doc] by simp

subsection \<open>The two copies of the loop over the sentences agree\<close>

lemma tag_docs_inner_eq: "tag_docs_inner self zs acc = tag_doc_loop self zs acc"
  by (induction self zs acc rule: tag_doc_loop.induct) (auto split: sum.splits)

subsection \<open>What the loops return\<close>

lemma tag_doc_loop_Inr:
  "fst (tag_doc_loop self zs acc) = Inr td \<Longrightarrow>
     (\<forall>z\<in>set zs. \<not> isl (model_predict (model self) (fst z))) \<and>
     td = acc @ map (\<lambda>(sent, sent_num).
                 tagged_sentence sent sent_num (projr (model_predict (model self) sent))) zs"
  by (induction self zs acc rule: tag_doc_loop.induct)
     (auto split: sum.splits simp: tagged_sentence_def)

lemma tag_doc_loop_ok:
  "(\<forall>z\<in>set zs. \<not> isl (model_predict (model self) (fst z))) \<Longrightarrow>
   tag_doc_loop self zs acc =
     (Inr (acc @ map (\<lambda>(sent, sent_num).
                 tagged_sentence sent sent_num (projr (model_predict (model self) sent))) zs),
      self)"
  by (induction self zs acc rule: tag_doc_loop.induct)
     (auto split: sum.splits simp: tagged_sentence_def)

lemma tag_doc_loop_fail:
  "k < length zs \<Longrightarrow> model_predict (model self) (fst (zs ! k)) = Inl e \<Longrightarrow>
   (\<forall>j<k. \<not> isl (model_predict (model self) (fst (zs ! j)))) \<Longrightarrow>
   tag_doc_loop self zs acc = (Inl e, self)"
proof (induction self zs acc arbitrary: k rule: tag_doc_loop.induct)
  case (1 self tagged_doc)
  then show ?case by simp
next
  case (2 self sent sent_num rest tagged_doc)
  show ?case
  proof (cases k)
    case 0
    with 2 show ?thesis by simp
  next
    case (Suc k')
    from 2(4) Suc have "\<not> isl (model_predict (model self) sent)" by fastforce
    then obtain tags where t: "model_predict (model self) sent = Inr tags"
      by (cases "model_predict (model self) sent") auto
    have "tag_doc_loop self rest
            (tagged_doc @
             [map (\<lambda>(token, token_num, tag).
                     if token \<noteq> ''<nUm>'' then (token, tag) else (token_num, tag))
                  (zip sent (zip sent_num tags))]) = (Inl e, self)"
      by (rule 2(1)[OF t, of k']) (use 2(2,3,4) Suc in auto)
    then show ?thesis using t by simp
  qed
qed

lemma preprocess_loop_Inr:
  "fst (preprocess_loop self sents ps pn) = Inr (ps', pn') \<Longrightarrow>
     (\<forall>s\<in>set sents. \<not> isl (process (processor self) s None) \<and>
                    \<not> isl (process (processor self) s (Some False))) \<and>
     ps' = ps @ map (\<lambda>s. fst (projr (process (processor self) s None))) sents \<and>
     pn' = pn @ map (\<lambda>s. fst (projr (process (processor self) s (Some False)))) sents"
  by (induction self sents ps pn rule: preprocess_loop.induct)
     (auto split: sum.splits prod.splits)

lemma preprocess_loop_ok:
  "(\<forall>s\<in>set sents. \<not> isl (process (processor self) s None) \<and>
                  \<not> isl (process (processor self) s (Some False))) \<Longrightarrow>
   preprocess_loop self sents ps pn =
     (Inr (ps @ map (\<lambda>s. fst (projr (process (processor self) s None))) sents,
           pn @ map (\<lambda>s. fst (projr (process (processor self) s (Some False)))) sents),
      self)"
  by (induction self sents ps pn rule: preprocess_loop.induct)
     (auto split: sum.splits prod.splits)

lemma preprocess_Inr:
  assumes "fst (preprocess self doc) = Inr (ps, pn)"
  shows "\<exists>sents. tokenize (processor self) doc = Inr sents \<and>
     (\<forall>s\<in>set sents. \<not> isl (process (processor self) s None) \<and>
                    \<not> isl (process (processor self) s (Some False))) \<and>
     ps = map (\<lambda>s. fst (projr (process (processor self) s None))) sents \<and>
     pn = map (\<lambda>s. fst (projr (process (processor self) s (Some False)))) sents"
proof (cases "tokenize (processor self) doc")
  case (Inl e)
  with assms show ?thesis by (simp add: preprocess_def)
next
  case (Inr sents)
  with assms have "fst (preprocess_loop self sents [] []) = Inr (ps, pn)"
    by (simp add: preprocess_def)
  from preprocess_loop_Inr[OF this] Inr show ?thesis by simp
qed

lemma preprocess_lengths:
  assumes "fst (preprocess self doc) = Inr (ps, pn)"
  shows "\<exists>sents. tokenize (processor self) doc = Inr sents \<and>
           length ps = length sents \<and> length pn = length sents"
  using preprocess_Inr[OF assms] by auto

lemma tag_doc_unfold:
  assumes "fst (preprocess self doc) = Inr (ps, pn)"
  shows "tag_doc self doc = tag_doc_loop self (zip ps pn) []"
proof -
  obtain r s where p: "preprocess self doc = (r, s)" by (cases "preprocess self doc")
  with preprocess_self have "s = self" by blast
  moreover from p assms have "r = Inr (ps, pn)" by simp
  ultimately show ?thesis using p by (simp add: tag_doc_def)
qed

lemma tag_doc_Inr:
  assumes "fst (preprocess self doc) = Inr (ps, pn)" and "fst (tag_doc self doc) = Inr td"
  shows "(\<forall>s\<in>set ps. \<not> isl (model_predict (model self) s)) \<and> length pn = length ps \<and>
     td = map (\<lambda>(sent, sent_num).
            tagged_sentence sent sent_num (projr (model_predict (model self) sent))) (zip ps pn)"
proof -
  from assms have l: "fst (tag_doc_loop self (zip ps pn) []) = Inr td"
    by (simp add: tag_doc_unfold)
  from preprocess_lengths[OF assms(1)] have len: "length pn = length ps" by auto
  then have "map fst (zip ps pn) = ps" by simp
  then have "set ps = fst ` set (zip ps pn)" by (metis set_map)
  with tag_doc_loop_Inr[OF l] len show ?thesis by auto
qed

subsection \<open>The tagged sentence\<close>

lemma length_tagged_sentence:
  "length (tagged_sentence sent sent_num tags) =
     min (length sent) (min (length sent_num) (length tags))"
  by (simp add: tagged_sentence_def)


lemma tag_doc_nth:
  assumes "fst (preprocess self doc) = Inr (ps, pn)" and "fst (tag_doc self doc) = Inr td"
  shows "length td = length ps \<and> length pn = length ps \<and>
         (\<forall>j<length ps. \<exists>tags. model_predict (model self) (ps ! j) = Inr tags \<and>
                           td ! j = tagged_sentence (ps ! j) (pn ! j) tags)"
proof -
  from tag_doc_Inr[OF assms] have ok: "\<forall>s\<in>set ps. \<not> isl (model_predict (model self) s)"
    and len: "length pn = length ps"
    and td: "td = map (\<lambda>(sent, sent_num).
            tagged_sentence sent sent_num (projr (model_predict (model self) sent))) (zip ps pn)"
    by auto
  have "\<exists>tags. model_predict (model self) (ps ! j) = Inr tags \<and>
                td ! j = tagged_sentence (ps ! j) (pn ! j) tags" if "j < length ps" for j
  proof -
    from that ok have "\<not> isl (model_predict (model self) (ps ! j))" by simp
    then obtain tags where t: "model_predict (model self) (ps ! j) = Inr tags"
      by (cases "model_predict (model self) (ps ! j)") auto
    from that len td t have "td ! j = tagged_sentence (ps ! j) (pn ! j) tags" by simp
    with t show ?thesis by blast
  qed
  with len td show ?thesis by simp
qed

lemmas demo_simps =
  tag_doc_def preprocess_def demo_def demo_tokenize_def demo_process_def demo_predict_def
  is_number_def model_predict_def demo_obj_def

section \<open>Numerals in the tagged document\<close>




section \<open>Tagging a pre-tokenized sentence\<close>

text \<open>
  C2, as the code has it. For every pre-tokenized sentence on which \<^verbatim>\<open>predict\<close> returns a
  list of tags, \<^verbatim>\<open>tag_sequence\<close> returns the pairs of the \<open>i\<close>-th token and the \<open>i\<close>-th tag
  for every \<open>i\<close> below the shorter of the two lengths, and leaves the classifier as it was.
  The result has as many pairs as the sentence has tokens exactly when \<^verbatim>\<open>predict\<close>
  returned at least that many tags.
\<close>

theorem tag_sequence_pairs:
  assumes "model_predict (model self) sequence = Inr tags"
  shows "tag_sequence self sequence = (Inr (zip sequence tags), self) \<and>
         length (zip sequence tags) = min (length sequence) (length tags) \<and>
         (\<forall>i<length (zip sequence tags). zip sequence tags ! i = (sequence ! i, tags ! i)) \<and>
         (length (zip sequence tags) = length sequence \<longleftrightarrow> length sequence \<le> length tags)"
proof -
  have "map (\<lambda>(token, tag). (token, tag)) (zip sequence tags) = zip sequence tags"
    by (induction sequence arbitrary: tags) (auto simp: zip_Cons1 split: list.splits)
  with assms have "tag_sequence self sequence = (Inr (zip sequence tags), self)"
    by (simp add: tag_sequence_def)
  then show ?thesis by auto
qed

theorem tag_sequence_pairs_witness:
  "model_predict (model (demo demo_predict demo_process)) [''heated'', ''to'', ''<nUm>'', ''K'']
     = Inr [''O'', ''O'', ''B-PVL'', ''O''] \<and>
   tag_sequence (demo demo_predict demo_process) [''heated'', ''to'', ''<nUm>'', ''K'']
     = (Inr [(''heated'', ''O''), (''to'', ''O''), (''<nUm>'', ''B-PVL''), (''K'', ''O'')],
        demo demo_predict demo_process)"
proof -
  have h: "model_predict (model (demo demo_predict demo_process))
             [''heated'', ''to'', ''<nUm>'', ''K'']
           = Inr [''O'', ''O'', ''B-PVL'', ''O'']"
    by (simp add: demo_def model_predict_def demo_obj_def demo_predict_def)
  from tag_sequence_pairs[OF h] h show ?thesis by simp
qed

text \<open>
  The length of the result is not that of the sentence when the model answers with fewer
  tags: with a model that returns one tag, a sentence of four tokens gives one pair.
\<close>

theorem tag_sequence_length_counterexample:
  "fst (tag_sequence (demo short_predict demo_process) [''heated'', ''to'', ''<nUm>'', ''K''])
     = Inr [(''heated'', ''O'')] \<and>
   length [(''heated'', ''O'')] \<noteq> length [''heated'', ''to'', ''<nUm>'', ''K'']"
  by (simp add: tag_sequence_def demo_def model_predict_def demo_obj_def short_predict_def)

subsection \<open>The loop over the documents\<close>

lemma snd_tag_docs_loop: "snd (tag_docs_loop self docs acc) = self"
proof (induction docs arbitrary: acc)
  case Nil
  then show ?case by simp
next
  case (Cons doc docs)
  obtain r s where p: "preprocess self doc = (r, s)" by (cases "preprocess self doc")
  with preprocess_self have s: "s = self" by blast
  show ?case
  proof (cases r)
    case (Inl e)
    with p s show ?thesis by simp
  next
    case (Inr pp)
    obtain ps pn where pp: "pp = (ps, pn)" by (cases pp)
    obtain r' s' where t: "tag_doc_loop self (zip ps pn) [] = (r', s')"
      by (cases "tag_doc_loop self (zip ps pn) []")
    with snd_tag_doc_loop[of self "zip ps pn" "[]"] have s': "s' = self" by simp
    show ?thesis using p s Inr pp t s' Cons.IH
      by (cases r') (simp_all add: tag_docs_inner_eq)
  qed
qed

lemma tag_docs_loop_step:
  "tag_docs_loop self (doc # docs) acc =
     (case fst (tag_doc self doc) of
        Inl e \<Rightarrow> (Inl e, self)
      | Inr td \<Rightarrow> tag_docs_loop self docs (acc @ [td]))"
proof -
  obtain r s where p: "preprocess self doc = (r, s)" by (cases "preprocess self doc")
  with preprocess_self have s: "s = self" by blast
  show ?thesis
  proof (cases r)
    case (Inl e)
    with p s show ?thesis by (simp add: tag_doc_def)
  next
    case (Inr pp)
    obtain ps pn where pp: "pp = (ps, pn)" by (cases pp)
    obtain r' s' where t: "tag_doc_loop self (zip ps pn) [] = (r', s')"
      by (cases "tag_doc_loop self (zip ps pn) []")
    with snd_tag_doc_loop[of self "zip ps pn" "[]"] have s': "s' = self" by simp
    show ?thesis using p s Inr pp t s'
      by (cases r') (simp_all add: tag_docs_inner_eq tag_doc_def)
  qed
qed

section \<open>Sequences of different lengths\<close>

text \<open>
  C3, as the code has it. Neither \<^verbatim>\<open>tag_doc\<close> nor \<^verbatim>\<open>tag_docs\<close> compares the length of the
  numeric-placeholder sequence with that of the numeric-preserved sequence, and neither
  raises when they differ. Whenever tokenization and processing succeed and \<^verbatim>\<open>predict\<close>
  raises on no sentence, both return a tagged document, with one tagged sentence per
  processed sentence, each cut to the shortest of the placeholder sequence, the preserved
  sequence and the tag sequence.
\<close>

theorem tag_doc_no_alignment_check:
  assumes "fst (preprocess self doc) = Inr (ps, pn)"
    and "\<forall>s\<in>set ps. \<not> isl (model_predict (model self) s)"
  shows "\<exists>td. tag_doc self doc = (Inr td, self) \<and> tag_docs self [doc] = (Inr [td], self) \<and>
           length td = length ps \<and>
           (\<forall>j<length ps. length (td ! j) =
              min (length (ps ! j))
                (min (length (pn ! j)) (length (projr (model_predict (model self) (ps ! j))))))"
proof -
  let ?td = "map (\<lambda>(sent, sent_num).
                tagged_sentence sent sent_num (projr (model_predict (model self) sent)))
              (zip ps pn)"
  from preprocess_lengths[OF assms(1)] have len: "length pn = length ps" by auto
  have "\<forall>z\<in>set (zip ps pn). \<not> isl (model_predict (model self) (fst z))"
    using assms(2) by (auto dest: set_zip_leftD)
  then have "tag_doc_loop self (zip ps pn) [] = (Inr ([] @ ?td), self)"
    by (rule tag_doc_loop_ok)
  with assms(1) have t: "tag_doc self doc = (Inr ?td, self)"
    by (simp add: tag_doc_unfold)
  then have "tag_docs self [doc] = (Inr [?td], self)"
    by (simp add: tag_docs_def tag_docs_loop_step del: tag_docs_loop.simps(2))
  moreover have "length ?td = length ps" using len by simp
  moreover have "\<forall>j<length ps. length (?td ! j) =
              min (length (ps ! j))
                (min (length (pn ! j)) (length (projr (model_predict (model self) (ps ! j)))))"
    using len by (simp add: length_tagged_sentence)
  ultimately show ?thesis using t by blast
qed

text \<open>
  A processor whose numeric-preserved pass loses the last token: the sentence
  \<^verbatim>\<open>Heated to 100 K.\<close> has four placeholder tokens and three preserved ones, and is tagged
  with three tokens.
\<close>

theorem tag_doc_no_alignment_check_witness:
  "fst (preprocess (demo demo_predict lossy_process) ''Heated to 100 K.'')
     = Inr ([[''Heated'', ''to'', ''<nUm>'', ''K'']], [[''Heated'', ''to'', ''100'']]) \<and>
   list_all (\<lambda>s. \<not> isl (model_predict (model (demo demo_predict lossy_process)) s))
     [[''Heated'', ''to'', ''<nUm>'', ''K'']] \<and>
   tag_doc (demo demo_predict lossy_process) ''Heated to 100 K.''
     = (Inr [[(''Heated'', ''O''), (''to'', ''O''), (''100'', ''B-PVL'')]],
        demo demo_predict lossy_process)"
proof -
  let ?self = "demo demo_predict lossy_process"
  have p: "fst (preprocess ?self ''Heated to 100 K.'')
     = Inr ([[''Heated'', ''to'', ''<nUm>'', ''K'']], [[''Heated'', ''to'', ''100'']])"
    by (simp add: demo_simps lossy_process_def)
  have a: "\<forall>s\<in>set [[''Heated'', ''to'', ''<nUm>'', ''K'']].
             \<not> isl (model_predict (model ?self) s)"
    by (simp add: demo_simps)
  have t: "tag_doc ?self ''Heated to 100 K.''
     = (Inr [[(''Heated'', ''O''), (''to'', ''O''), (''100'', ''B-PVL'')]], ?self)"
    by (simp add: demo_simps lossy_process_def)
  from tag_doc_no_alignment_check[OF p a] p a t show ?thesis by simp
qed

text \<open>
  On the same input the sequences differ in length, and \<^verbatim>\<open>tag_doc\<close> and \<^verbatim>\<open>tag_docs\<close>
  return a result, with the token \<^verbatim>\<open>K\<close> missing, instead of an error.
\<close>

theorem tag_doc_misaligned_counterexample:
  "fst (preprocess (demo demo_predict lossy_process) ''Heated to 100 K.'')
     = Inr ([[''Heated'', ''to'', ''<nUm>'', ''K'']], [[''Heated'', ''to'', ''100'']]) \<and>
   length [''Heated'', ''to'', ''<nUm>'', ''K''] \<noteq> length [''Heated'', ''to'', ''100''] \<and>
   fst (tag_doc (demo demo_predict lossy_process) ''Heated to 100 K.'')
     = Inr [[(''Heated'', ''O''), (''to'', ''O''), (''100'', ''B-PVL'')]] \<and>
   fst (tag_docs (demo demo_predict lossy_process) [''Heated to 100 K.''])
     = Inr [[[(''Heated'', ''O''), (''to'', ''O''), (''100'', ''B-PVL'')]]]"
  by (simp add: demo_simps lossy_process_def tag_docs_def)

section \<open>Errors of the model\<close>

text \<open>
  C4. For every document, if \<^verbatim>\<open>predict\<close> raises on a sentence of the document, then
  \<^verbatim>\<open>tag_doc\<close> does not return a tagged document: it fails, the classifier unchanged, with
  the error that \<^verbatim>\<open>predict\<close> raised on the first sentence on which it raises (the later
  sentences are never passed to the model).
\<close>

theorem tag_doc_propagates_predict_error:
  assumes "fst (preprocess self doc) = Inr (ps, pn)"
    and "s \<in> set ps" and "model_predict (model self) s = Inl e"
  shows "isl (fst (tag_doc self doc)) \<and> snd (tag_doc self doc) = self \<and>
         (\<exists>k<length ps. (\<forall>j<k. \<not> isl (model_predict (model self) (ps ! j))) \<and>
            model_predict (model self) (ps ! k) = Inl (projl (fst (tag_doc self doc))))"
proof -
  let ?P = "\<lambda>k. k < length ps \<and> isl (model_predict (model self) (ps ! k))"
  from assms(2) obtain k0 where "k0 < length ps" "ps ! k0 = s"
    by (auto simp: in_set_conv_nth)
  with assms(3) have "?P k0" by simp
  define k where "k = (LEAST k. ?P k)"
  from \<open>?P k0\<close> have Pk: "?P k" unfolding k_def by (rule LeastI)
  have before: "\<not> ?P j" if "j < k" for j
    using that unfolding k_def by (rule not_less_Least)
  from Pk obtain e' where e': "model_predict (model self) (ps ! k) = Inl e'"
    by (cases "model_predict (model self) (ps ! k)") auto
  from preprocess_lengths[OF assms(1)] have len: "length pn = length ps" by auto
  have "tag_doc_loop self (zip ps pn) [] = (Inl e', self)"
  proof (rule tag_doc_loop_fail[of k])
    show "k < length (zip ps pn)" using Pk len by simp
    show "model_predict (model self) (fst (zip ps pn ! k)) = Inl e'"
      using Pk len e' by simp
    show "\<forall>j<k. \<not> isl (model_predict (model self) (fst (zip ps pn ! j)))"
      using before Pk len by auto
  qed
  with assms(1) have t: "tag_doc self doc = (Inl e', self)"
    by (simp add: tag_doc_unfold)
  have "\<forall>j<k. \<not> isl (model_predict (model self) (ps ! j))"
    using before Pk by auto
  with t Pk e' show ?thesis by auto
qed

text \<open>
  A model that times out on the second sentence of \<^verbatim>\<open>Heated to 100 K. It melted at 1800 K.\<close>
\<close>

theorem tag_doc_propagates_predict_error_witness:
  "fst (preprocess (demo failing_predict demo_process) ''Heated to 100 K. It melted at 1800 K.'')
     = Inr ([[''Heated'', ''to'', ''<nUm>'', ''K''], [''It'', ''melted'', ''at'', ''<nUm>'', ''K'']],
            [[''Heated'', ''to'', ''100'', ''K''], [''It'', ''melted'', ''at'', ''1800'', ''K'']]) \<and>
   model_predict (model (demo failing_predict demo_process))
       [''It'', ''melted'', ''at'', ''<nUm>'', ''K'']
     = Inl (Raised ''timeout'') \<and>
   tag_doc (demo failing_predict demo_process) ''Heated to 100 K. It melted at 1800 K.''
     = (Inl (Raised ''timeout''), demo failing_predict demo_process)"
proof -
  let ?self = "demo failing_predict demo_process"
  let ?ps = "[[''Heated'', ''to'', ''<nUm>'', ''K''], [''It'', ''melted'', ''at'', ''<nUm>'', ''K'']]"
  let ?pn = "[[''Heated'', ''to'', ''100'', ''K''], [''It'', ''melted'', ''at'', ''1800'', ''K'']]"
  have p: "fst (preprocess ?self ''Heated to 100 K. It melted at 1800 K.'') = Inr (?ps, ?pn)"
    by (simp add: demo_simps)
  have m: "[''It'', ''melted'', ''at'', ''<nUm>'', ''K''] \<in> set ?ps" by simp
  have f: "model_predict (model ?self) [''It'', ''melted'', ''at'', ''<nUm>'', ''K'']
             = Inl (Raised ''timeout'')"
    by (simp add: demo_simps failing_predict_def)
  have t: "tag_doc ?self ''Heated to 100 K. It melted at 1800 K.''
             = (Inl (Raised ''timeout''), ?self)"
    by (simp add: demo_simps failing_predict_def)
  from tag_doc_propagates_predict_error[OF p m f] p f t show ?thesis by simp
qed

section \<open>Counting sentences and tokens\<close>

lemma sum_list_pointwise_le:
  "length xs = length ys \<Longrightarrow> (\<forall>j<length xs. xs ! j \<le> (ys ! j :: nat)) \<Longrightarrow>
   sum_list xs \<le> sum_list ys"
proof (induction xs ys rule: list_induct2)
  case Nil
  then show ?case by simp
next
  case (Cons x xs y ys)
  from Cons.prems have "x \<le> y" by fastforce
  moreover from Cons.prems have "\<forall>j<length xs. xs ! j \<le> ys ! j" by fastforce
  ultimately show ?case using Cons.IH by simp
qed

text \<open>
  C6, as the code has it. For every document on which \<^verbatim>\<open>tag_doc\<close> returns, the tagged
  document has as many sentences as \<^verbatim>\<open>tokenize\<close> produces for the document. The number of
  tagged tokens over all its sentences is at most the number of tokens of the processed
  sentences, and equals it when, for every sentence, the numeric-preserved sequence and
  the tag sequence are at least as long as the numeric-placeholder sequence.
\<close>

theorem tag_doc_counts:
  assumes "tokenize (processor self) doc = Inr sents"
    and "fst (preprocess self doc) = Inr (ps, pn)"
    and "fst (tag_doc self doc) = Inr td"
  shows "length td = length sents \<and>
         sum_list (map length td) \<le> sum_list (map length ps) \<and>
         ((\<forall>j<length ps. length (ps ! j) \<le> length (pn ! j) \<and>
              length (ps ! j) \<le> length (projr (model_predict (model self) (ps ! j)))) \<longrightarrow>
          sum_list (map length td) = sum_list (map length ps))"
proof -
  from preprocess_lengths[OF assms(2)] assms(1) have ls: "length ps = length sents" by auto
  from tag_doc_nth[OF assms(2,3)] have lt: "length td = length ps"
    and nth: "\<forall>j<length ps. \<exists>tags. model_predict (model self) (ps ! j) = Inr tags \<and>
                           td ! j = tagged_sentence (ps ! j) (pn ! j) tags"
    by auto
  have len: "length (td ! j) =
               min (length (ps ! j))
                 (min (length (pn ! j)) (length (projr (model_predict (model self) (ps ! j)))))"
    if "j < length ps" for j
  proof -
    from nth that obtain tags where "model_predict (model self) (ps ! j) = Inr tags"
      and "td ! j = tagged_sentence (ps ! j) (pn ! j) tags" by blast
    then show ?thesis by (simp add: length_tagged_sentence)
  qed
  have le: "sum_list (map length td) \<le> sum_list (map length ps)"
  proof (rule sum_list_pointwise_le)
    show "length (map length td) = length (map length ps)" using lt by simp
    show "\<forall>j<length (map length td). map length td ! j \<le> map length ps ! j"
      using lt len by simp
  qed
  have eq: "sum_list (map length td) = sum_list (map length ps)"
    if h: "\<forall>j<length ps. length (ps ! j) \<le> length (pn ! j) \<and>
              length (ps ! j) \<le> length (projr (model_predict (model self) (ps ! j)))"
  proof -
    have "map length td = map length ps"
    proof (rule nth_equalityI)
      show "length (map length td) = length (map length ps)" using lt by simp
      fix j assume "j < length (map length td)"
      then have j: "j < length ps" using lt by simp
      with len h have "length (td ! j) = length (ps ! j)" by simp
      with j lt show "map length td ! j = map length ps ! j" by simp
    qed
    then show ?thesis by simp
  qed
  from ls lt le eq show ?thesis by simp
qed

theorem tag_doc_counts_witness:
  "tokenize (processor (demo demo_predict demo_process)) ''Heated to 100 K. It melted at 1800 K.''
     = Inr [[''Heated'', ''to'', ''100'', ''K''], [''It'', ''melted'', ''at'', ''1800'', ''K'']] \<and>
   fst (preprocess (demo demo_predict demo_process) ''Heated to 100 K. It melted at 1800 K.'')
     = Inr ([[''Heated'', ''to'', ''<nUm>'', ''K''], [''It'', ''melted'', ''at'', ''<nUm>'', ''K'']],
            [[''Heated'', ''to'', ''100'', ''K''], [''It'', ''melted'', ''at'', ''1800'', ''K'']]) \<and>
   fst (tag_doc (demo demo_predict demo_process) ''Heated to 100 K. It melted at 1800 K.'')
     = Inr [[(''Heated'', ''O''), (''to'', ''O''), (''100'', ''B-PVL''), (''K'', ''O'')],
            [(''It'', ''O''), (''melted'', ''O''), (''at'', ''O''), (''1800'', ''B-PVL''),
             (''K'', ''O'')]] \<and>
   list_all (\<lambda>(s, n). length s \<le> length n \<and>
                length s \<le> length (projr (model_predict (model (demo demo_predict demo_process)) s)))
     (zip [[''Heated'', ''to'', ''<nUm>'', ''K''], [''It'', ''melted'', ''at'', ''<nUm>'', ''K'']]
          [[''Heated'', ''to'', ''100'', ''K''], [''It'', ''melted'', ''at'', ''1800'', ''K'']]) \<and>
   sum_list (map length
       [[(''Heated'', ''O''), (''to'', ''O''), (''100'', ''B-PVL''), (''K'', ''O'')],
        [(''It'', ''O''), (''melted'', ''O''), (''at'', ''O''), (''1800'', ''B-PVL''),
         (''K'', ''O'')]]) = 9"
proof -
  let ?self = "demo demo_predict demo_process"
  let ?doc = "''Heated to 100 K. It melted at 1800 K.''"
  let ?sents = "[[''Heated'', ''to'', ''100'', ''K''], [''It'', ''melted'', ''at'', ''1800'', ''K'']]"
  let ?ps = "[[''Heated'', ''to'', ''<nUm>'', ''K''], [''It'', ''melted'', ''at'', ''<nUm>'', ''K'']]"
  let ?td = "[[(''Heated'', ''O''), (''to'', ''O''), (''100'', ''B-PVL''), (''K'', ''O'')],
              [(''It'', ''O''), (''melted'', ''O''), (''at'', ''O''), (''1800'', ''B-PVL''),
               (''K'', ''O'')]]"
  have k: "tokenize (processor ?self) ?doc = Inr ?sents"
    by (simp add: demo_simps)
  have p: "fst (preprocess ?self ?doc) = Inr (?ps, ?sents)"
    by (simp add: demo_simps)
  have t: "fst (tag_doc ?self ?doc) = Inr ?td"
    by (simp add: demo_simps)
  have a: "list_all (\<lambda>(s, n). length s \<le> length n \<and>
                length s \<le> length (projr (model_predict (model ?self) s))) (zip ?ps ?sents)"
    by (simp add: demo_simps)
  from tag_doc_counts[OF k p t] k p t a show ?thesis by simp
qed

text \<open>
  With a model that answers with one tag per sentence, the two sentences of the document,
  of nine processed tokens, are tagged with two tokens.
\<close>

theorem tag_doc_counts_counterexample:
  "fst (preprocess (demo short_predict demo_process) ''Heated to 100 K. It melted at 1800 K.'')
     = Inr ([[''Heated'', ''to'', ''<nUm>'', ''K''], [''It'', ''melted'', ''at'', ''<nUm>'', ''K'']],
            [[''Heated'', ''to'', ''100'', ''K''], [''It'', ''melted'', ''at'', ''1800'', ''K'']]) \<and>
   fst (tag_doc (demo short_predict demo_process) ''Heated to 100 K. It melted at 1800 K.'')
     = Inr [[(''Heated'', ''O'')], [(''It'', ''O'')]] \<and>
   sum_list (map length [[(''Heated'', ''O'')], [(''It'', ''O'')]]) = 2 \<and>
   sum_list (map length
       [[''Heated'', ''to'', ''<nUm>'', ''K''], [''It'', ''melted'', ''at'', ''<nUm>'', ''K'']]) = 9"
  by (simp add: demo_simps short_predict_def)

section \<open>Batches of documents\<close>

lemma tag_docs_loop_comprehension:
  "tag_docs_loop self docs acc =
     (case list_comprehension tag_doc docs self of
        (Inl e, self') \<Rightarrow> (Inl e, self')
      | (Inr tds, self') \<Rightarrow> (Inr (acc @ tds), self'))"
proof (induction docs arbitrary: acc)
  case Nil
  then show ?case by simp
next
  case (Cons doc docs)
  obtain r where t: "tag_doc self doc = (r, self)"
    using snd_tag_doc[of self doc] by (cases "tag_doc self doc") simp
  show ?case
  proof (cases r)
    case (Inl e)
    with t show ?thesis by (simp add: tag_docs_loop_step del: tag_docs_loop.simps(2))
  next
    case (Inr td)
    with t Cons.IH[of "acc @ [td]"] show ?thesis
      by (simp add: tag_docs_loop_step del: tag_docs_loop.simps(2)
               split: prod.splits sum.splits)
  qed
qed

lemma list_comprehension_Inr:
  assumes "\<And>x. snd (f self x) = self"
    and "fst (list_comprehension f xs self) = Inr ys"
  shows "length ys = length xs \<and> (\<forall>k<length xs. fst (f self (xs ! k)) = Inr (ys ! k))"
  using assms(2)
proof (induction xs arbitrary: ys)
  case Nil
  then show ?case by simp
next
  case (Cons x xs)
  obtain r where fx: "f self x = (r, self)"
    using assms(1)[of x] by (cases "f self x") simp
  from Cons.prems fx obtain y where r: "r = Inr y" by (cases r) auto
  obtain r' s' where rest: "list_comprehension f xs self = (r', s')"
    by (cases "list_comprehension f xs self")
  from Cons.prems fx r rest obtain ys' where r': "r' = Inr ys'" by (cases r') auto
  from Cons.prems fx r rest r' have ys: "ys = y # ys'" by simp
  from rest r' have "fst (list_comprehension f xs self) = Inr ys'" by simp
  from Cons.IH[OF this] have ih: "length ys' = length xs"
    "\<forall>k<length xs. fst (f self (xs ! k)) = Inr (ys' ! k)" by simp_all
  show ?case
  proof (intro conjI allI impI)
    show "length ys = length (x # xs)" using ys ih by simp
    fix k assume "k < length (x # xs)"
    then show "fst (f self ((x # xs) ! k)) = Inr (ys ! k)"
      using ys ih fx r by (cases k) simp_all
  qed
qed

lemma snd_tag_docs: "snd (tag_docs self docs) = self"
  by (simp add: tag_docs_def snd_tag_docs_loop)

lemma tag_docs_eq_comprehension: "tag_docs self docs = list_comprehension tag_doc docs self"
  by (simp add: tag_docs_def tag_docs_loop_comprehension split: prod.splits sum.splits)

lemma tag_docs_Inr:
  assumes "fst (tag_docs self docs) = Inr tds"
  shows "length tds = length docs \<and>
         (\<forall>k<length docs. fst (tag_doc self (docs ! k)) = Inr (tds ! k))"
proof (rule list_comprehension_Inr)
  show "snd (tag_doc self x) = self" for x by (rule snd_tag_doc)
  show "fst (list_comprehension tag_doc docs self) = Inr tds"
    using assms by (simp add: tag_docs_eq_comprehension)
qed

text \<open>
  C5. For every list of documents, \<^verbatim>\<open>tag_docs(docs)\<close> and \<^verbatim>\<open>as_iob(docs)\<close> are
  \<^verbatim>\<open>[tag_doc(d) for d in docs]\<close>: the same result or the same error, and the same
  classifier afterwards. When they return, there is one tagged document per input
  document, in the input order, and the \<open>k\<close>-th is what \<^verbatim>\<open>tag_doc\<close> returns on the \<open>k\<close>-th
  document alone.
\<close>

theorem tag_docs_is_comprehension:
  "tag_docs self docs = list_comprehension tag_doc docs self \<and>
   as_iob self docs = list_comprehension tag_doc docs self \<and>
   (\<forall>tagged_docs. fst (tag_docs self docs) = Inr tagged_docs \<longrightarrow>
      length tagged_docs = length docs \<and>
      (\<forall>k<length docs. fst (tag_doc self (docs ! k)) = Inr (tagged_docs ! k)))"
  using tag_docs_eq_comprehension[of self docs] tag_docs_Inr[of self docs]
  by (simp add: as_iob_def)

theorem tag_docs_is_comprehension_witness:
  "fst (tag_docs (demo demo_predict demo_process) [''Heated to 100 K.'', ''It melted at 1800 K.''])
     = Inr [[[(''Heated'', ''O''), (''to'', ''O''), (''100'', ''B-PVL''), (''K'', ''O'')]],
            [[(''It'', ''O''), (''melted'', ''O''), (''at'', ''O''), (''1800'', ''B-PVL''),
              (''K'', ''O'')]]] \<and>
   fst (tag_doc (demo demo_predict demo_process) ''It melted at 1800 K.'')
     = Inr [[(''It'', ''O''), (''melted'', ''O''), (''at'', ''O''), (''1800'', ''B-PVL''),
             (''K'', ''O'')]]"
proof -
  let ?self = "demo demo_predict demo_process"
  let ?docs = "[''Heated to 100 K.'', ''It melted at 1800 K.'']"
  let ?tds = "[[[(''Heated'', ''O''), (''to'', ''O''), (''100'', ''B-PVL''), (''K'', ''O'')]],
            [[(''It'', ''O''), (''melted'', ''O''), (''at'', ''O''), (''1800'', ''B-PVL''),
              (''K'', ''O'')]]]"
  have t: "fst (tag_docs ?self ?docs) = Inr ?tds"
    by (simp add: demo_simps tag_docs_def)
  from tag_docs_is_comprehension[of ?self ?docs] t
  have a: "\<forall>k<length ?docs. fst (tag_doc ?self (?docs ! k)) = Inr (?tds ! k)" by blast
  have "1 < length ?docs" by simp
  with a have "fst (tag_doc ?self (?docs ! 1)) = Inr (?tds ! 1)" by blast
  with t show ?thesis by simp
qed

section \<open>Concatenated entities\<close>

lemma as_concatenated_loop_comprehension:
  "as_concatenated_loop self tagged_docs acc =
     (case list_comprehension concatenate_entities tagged_docs self of
        (Inl e, self') \<Rightarrow> (Inl e, self')
      | (Inr cs, self') \<Rightarrow> (Inr (acc @ cs), self'))"
proof (induction tagged_docs arbitrary: acc)
  case Nil
  then show ?case by simp
next
  case (Cons doc tagged_docs)
  show ?case
  proof (cases "concatenate_ents (normalizer self) doc")
    case (Inl e)
    then show ?thesis by (simp add: concatenate_entities_def)
  next
    case (Inr conc)
    with Cons.IH[of "acc @ [conc]"] show ?thesis
      by (simp add: concatenate_entities_def split: prod.splits sum.splits)
  qed
qed

text \<open>
  C7. For every list of documents, \<^verbatim>\<open>as_concatenated(docs)\<close> is
  \<^verbatim>\<open>[concatenate_entities(td) for td in tag_docs(docs)]\<close>: the documents are tagged first,
  then the entity concatenation of the normalizer is applied to every tagged document in
  order; when both return, there is one concatenated document per input document.
\<close>

theorem as_concatenated_is_comprehension:
  "as_concatenated self docs =
     (case tag_docs self docs of
        (Inl e, self') \<Rightarrow> (Inl e, self')
      | (Inr tagged_docs, self') \<Rightarrow>
          list_comprehension concatenate_entities tagged_docs self') \<and>
   (\<forall>tagged_docs concatenated.
      fst (tag_docs self docs) = Inr tagged_docs \<longrightarrow>
      fst (as_concatenated self docs) = Inr concatenated \<longrightarrow>
      length concatenated = length docs \<and>
      (\<forall>k<length docs.
         fst (concatenate_entities self (tagged_docs ! k)) = Inr (concatenated ! k)))"
proof -
  have eq: "as_concatenated self docs =
     (case tag_docs self docs of
        (Inl e, self') \<Rightarrow> (Inl e, self')
      | (Inr tagged_docs, self') \<Rightarrow>
          list_comprehension concatenate_entities tagged_docs self')"
    by (simp add: as_concatenated_def as_concatenated_loop_comprehension
             split: prod.splits sum.splits)
  have "length cs = length docs \<and>
        (\<forall>k<length docs. fst (concatenate_entities self (tds ! k)) = Inr (cs ! k))"
    if t: "fst (tag_docs self docs) = Inr tds" and c: "fst (as_concatenated self docs) = Inr cs"
    for tds cs
  proof -
    from tag_docs_Inr[OF t] have lt: "length tds = length docs" by blast
    from t snd_tag_docs[of self docs] have "tag_docs self docs = (Inr tds, self)"
      by (cases "tag_docs self docs") simp
    with c eq have "fst (list_comprehension concatenate_entities tds self) = Inr cs" by simp
    moreover have "snd (concatenate_entities self x) = self" for x
      by (simp add: concatenate_entities_def)
    ultimately have "length cs = length tds \<and>
        (\<forall>k<length tds. fst (concatenate_entities self (tds ! k)) = Inr (cs ! k))"
      using list_comprehension_Inr[of concatenate_entities self tds cs] by blast
    with lt show ?thesis by simp
  qed
  with eq show ?thesis by blast
qed

theorem as_concatenated_is_comprehension_witness:
  "fst (tag_docs (demo demo_predict demo_process) [''Heated to 100 K. It melted.'', ''Hi 5'']) =
     Inr [[[(''Heated'', ''O''), (''to'', ''O''), (''100'', ''B-PVL''), (''K'', ''O'')],
           [(''It'', ''O''), (''melted'', ''O'')]],
          [[(''Hi'', ''O''), (''5'', ''B-PVL'')]]] \<and>
   fst (as_concatenated (demo demo_predict demo_process) [''Heated to 100 K. It melted.'', ''Hi 5'']) =
     Inr [[[(''Heated'', ''O''), (''to'', ''O''), (''100'', ''B-PVL''), (''K'', ''O''),
            (''It'', ''O''), (''melted'', ''O'')]],
          [[(''Hi'', ''O''), (''5'', ''B-PVL'')]]] \<and>
   fst (concatenate_entities (demo demo_predict demo_process)
          [[(''Heated'', ''O''), (''to'', ''O''), (''100'', ''B-PVL''), (''K'', ''O'')],
           [(''It'', ''O''), (''melted'', ''O'')]]) =
     Inr [[(''Heated'', ''O''), (''to'', ''O''), (''100'', ''B-PVL''), (''K'', ''O''),
           (''It'', ''O''), (''melted'', ''O'')]]"
proof -
  let ?self = "demo demo_predict demo_process"
  let ?docs = "[''Heated to 100 K. It melted.'', ''Hi 5'']"
  let ?tds = "[[[(''Heated'', ''O''), (''to'', ''O''), (''100'', ''B-PVL''), (''K'', ''O'')],
           [(''It'', ''O''), (''melted'', ''O'')]],
          [[(''Hi'', ''O''), (''5'', ''B-PVL'')]]]"
  let ?cs = "[[[(''Heated'', ''O''), (''to'', ''O''), (''100'', ''B-PVL''), (''K'', ''O''),
            (''It'', ''O''), (''melted'', ''O'')]],
          [[(''Hi'', ''O''), (''5'', ''B-PVL'')]]]"
  have t: "fst (tag_docs ?self ?docs) = Inr ?tds"
    by (simp add: demo_simps tag_docs_def)
  have c: "fst (as_concatenated ?self ?docs) = Inr ?cs"
    by (simp add: demo_simps tag_docs_def as_concatenated_def demo_normalizer_def)
  from as_concatenated_is_comprehension[of ?self ?docs] t c
  have a: "\<forall>k<length ?docs. fst (concatenate_entities ?self (?tds ! k)) = Inr (?cs ! k)"
    by blast
  have "0 < length ?docs" by simp
  with a have "fst (concatenate_entities ?self (?tds ! 0)) = Inr (?cs ! 0)" by blast
  with t c show ?thesis by simp
qed

section \<open>Normalized entities\<close>

text \<open>
  C8. \<^verbatim>\<open>normalize_entities(doc, tagged_doc)\<close> is the first element of what the batch
  \<^verbatim>\<open>normalize\<close> of the normalizer returns on the singleton batches \<^verbatim>\<open>[doc]\<close> and
  \<^verbatim>\<open>[tagged_doc]\<close> (an \<^verbatim>\<open>IndexError\<close> if that list is empty, the error of \<^verbatim>\<open>normalize\<close> if it
  raises), and \<^verbatim>\<open>as_normalized(docs)\<close> is what the batch \<^verbatim>\<open>normalize\<close> returns on \<^verbatim>\<open>docs\<close>
  and \<^verbatim>\<open>tag_docs(docs)\<close>, unchanged and in that order (the error of \<^verbatim>\<open>tag_docs\<close> if it
  raises).
\<close>

theorem normalize_entities_unwraps:
  "(\<forall>normalized rest.
      normalize_docs (normalizer self) [doc] [tagged_doc] = Inr (normalized # rest) \<longrightarrow>
      normalize_entities self doc tagged_doc = (Inr normalized, self)) \<and>
   (normalize_docs (normalizer self) [doc] [tagged_doc] = Inr [] \<longrightarrow>
      normalize_entities self doc tagged_doc = (Inl IndexError, self)) \<and>
   (\<forall>e. normalize_docs (normalizer self) [doc] [tagged_doc] = Inl e \<longrightarrow>
      normalize_entities self doc tagged_doc = (Inl e, self)) \<and>
   (\<forall>tagged_docs. fst (tag_docs self docs) = Inr tagged_docs \<longrightarrow>
      as_normalized self docs = (normalize_docs (normalizer self) docs tagged_docs, self)) \<and>
   (\<forall>e. fst (tag_docs self docs) = Inl e \<longrightarrow> as_normalized self docs = (Inl e, self))"
proof -
  obtain r where t: "tag_docs self docs = (r, self)"
    using snd_tag_docs[of self docs] by (cases "tag_docs self docs") simp
  then have "(\<forall>tagged_docs. fst (tag_docs self docs) = Inr tagged_docs \<longrightarrow>
      as_normalized self docs = (normalize_docs (normalizer self) docs tagged_docs, self)) \<and>
   (\<forall>e. fst (tag_docs self docs) = Inl e \<longrightarrow> as_normalized self docs = (Inl e, self))"
    by (simp add: as_normalized_def)
  then show ?thesis by (simp add: normalize_entities_def)
qed

theorem normalize_entities_unwraps_witness:
  "normalize_docs (normalizer (demo demo_predict demo_process)) [''Hi 5'']
       [[[(''Hi'', ''O''), (''5'', ''B-PVL'')]]]
     = Inr [[[(''Hi'', ''N-O''), (''5'', ''N-B-PVL'')]]] \<and>
   normalize_entities (demo demo_predict demo_process) ''Hi 5'' [[(''Hi'', ''O''), (''5'', ''B-PVL'')]]
     = (Inr [[(''Hi'', ''N-O''), (''5'', ''N-B-PVL'')]], demo demo_predict demo_process) \<and>
   fst (tag_docs (demo demo_predict demo_process) [''Hi 5'', ''It melted'']) =
     Inr [[[(''Hi'', ''O''), (''5'', ''B-PVL'')]], [[(''It'', ''O''), (''melted'', ''O'')]]] \<and>
   as_normalized (demo demo_predict demo_process) [''Hi 5'', ''It melted''] =
     (Inr [[[(''Hi'', ''N-O''), (''5'', ''N-B-PVL'')]], [[(''It'', ''N-O''), (''melted'', ''N-O'')]]],
      demo demo_predict demo_process)"
proof -
  let ?self = "demo demo_predict demo_process"
  have n: "normalize_docs (normalizer ?self) [''Hi 5''] [[[(''Hi'', ''O''), (''5'', ''B-PVL'')]]]
     = Inr [[[(''Hi'', ''N-O''), (''5'', ''N-B-PVL'')]]]"
    by (simp add: demo_def demo_normalizer_def)
  have t: "fst (tag_docs ?self [''Hi 5'', ''It melted'']) =
     Inr [[[(''Hi'', ''O''), (''5'', ''B-PVL'')]], [[(''It'', ''O''), (''melted'', ''O'')]]]"
    by (simp add: demo_simps tag_docs_def)
  have m: "normalize_docs (normalizer ?self) [''Hi 5'', ''It melted'']
             [[[(''Hi'', ''O''), (''5'', ''B-PVL'')]], [[(''It'', ''O''), (''melted'', ''O'')]]]
     = Inr [[[(''Hi'', ''N-O''), (''5'', ''N-B-PVL'')]], [[(''It'', ''N-O''), (''melted'', ''N-O'')]]]"
    by (simp add: demo_def demo_normalizer_def)
  from normalize_entities_unwraps[of ?self "''Hi 5''" "[[(''Hi'', ''O''), (''5'', ''B-PVL'')]]"
         "[''Hi 5'', ''It melted'']"] n t m
  show ?thesis by simp
qed

section \<open>The state of the classifier\<close>

lemma snd_as_concatenated_loop: "snd (as_concatenated_loop self tds acc) = self"
  by (induction self tds acc rule: as_concatenated_loop.induct) (auto split: sum.splits)

lemma snd_as_concatenated: "snd (as_concatenated self docs) = self"
proof -
  obtain r where t: "tag_docs self docs = (r, self)"
    using snd_tag_docs[of self docs] by (cases "tag_docs self docs") simp
  then show ?thesis
    by (cases r) (simp_all add: as_concatenated_def snd_as_concatenated_loop)
qed

lemma snd_as_normalized: "snd (as_normalized self docs) = self"
proof -
  obtain r where t: "tag_docs self docs = (r, self)"
    using snd_tag_docs[of self docs] by (cases "tag_docs self docs") simp
  then show ?thesis
    by (cases r) (simp_all add: as_normalized_def)
qed

lemma snd_tag_sequence: "snd (tag_sequence self sequence) = self"
  by (simp add: tag_sequence_def split: sum.splits)

lemma snd_normalize_entities: "snd (normalize_entities self doc tagged_doc) = self"
  by (simp add: normalize_entities_def split: sum.splits list.splits)

lemma perform_tagging_call: "tagging_call c \<Longrightarrow> perform c self = self"
  by (cases c)
     (simp_all add: snd_tag_sequence snd_tag_doc snd_tag_docs snd_as_concatenated
        snd_as_normalized snd_normalize_entities concatenate_entities_def as_iob_def)

lemma fold_perform_tagging_calls:
  "\<forall>c\<in>set calls. tagging_call c \<Longrightarrow> fold perform calls self = self"
  by (induction calls) (simp_all add: perform_tagging_call)

text \<open>
  C10. Each of \<^verbatim>\<open>tag_sequence\<close>, \<^verbatim>\<open>tag_doc\<close>, \<^verbatim>\<open>tag_docs\<close>, \<^verbatim>\<open>as_iob\<close>, \<^verbatim>\<open>as_concatenated\<close>,
  \<^verbatim>\<open>as_normalized\<close>, \<^verbatim>\<open>concatenate_entities\<close> and \<^verbatim>\<open>normalize_entities\<close> (and the helper
  \<^verbatim>\<open>_preprocess\<close>) leaves the classifier as it found it, whether it returns or raises:
  \<open>config\<close>, \<open>api_url\<close>, \<open>model\<close>, \<open>normalizer\<close> and \<open>processor\<close> are the same afterwards.
  So after any sequence of such calls the classifier is the one before them, and tagging
  a document gives what it gives on that classifier: no call leaves anything behind for
  the next document or sentence.
\<close>

theorem tagging_leaves_classifier_unchanged:
  "snd (tag_sequence self sequence) = self \<and>
   snd (tag_doc self doc) = self \<and>
   snd (tag_docs self docs) = self \<and>
   snd (as_iob self docs) = self \<and>
   snd (as_concatenated self docs) = self \<and>
   snd (as_normalized self docs) = self \<and>
   snd (concatenate_entities self tagged_doc) = self \<and>
   snd (normalize_entities self doc tagged_doc) = self \<and>
   snd (preprocess self doc) = self \<and>
   (\<forall>calls. (\<forall>c\<in>set calls. tagging_call c) \<longrightarrow>
      fold perform calls self = self \<and>
      tag_doc (fold perform calls self) doc = tag_doc self doc)"
  using fold_perform_tagging_calls[of _ self]
  by (simp add: snd_tag_sequence snd_tag_doc snd_tag_docs snd_as_concatenated
        snd_as_normalized snd_normalize_entities snd_preprocess concatenate_entities_def
        as_iob_def)

theorem tagging_leaves_classifier_unchanged_witness:
  "list_all tagging_call [Tag_docs [''Heated to 100 K.'', ''Hi 5''], Tag_sequence [''a'', ''5''],
      As_normalized [''It melted at 1800 K.'']] \<and>
   fold perform [Tag_docs [''Heated to 100 K.'', ''Hi 5''], Tag_sequence [''a'', ''5''],
      As_normalized [''It melted at 1800 K.'']] (demo demo_predict demo_process)
     = demo demo_predict demo_process \<and>
   fst (tag_doc (fold perform [Tag_docs [''Heated to 100 K.'', ''Hi 5''], Tag_sequence [''a'', ''5''],
      As_normalized [''It melted at 1800 K.'']] (demo demo_predict demo_process)) ''Hi 5'')
     = Inr [[(''Hi'', ''O''), (''5'', ''B-PVL'')]]"
proof -
  let ?self = "demo demo_predict demo_process"
  let ?calls = "[Tag_docs [''Heated to 100 K.'', ''Hi 5''], Tag_sequence [''a'', ''5''],
      As_normalized [''It melted at 1800 K.'']]"
  have a: "\<forall>c\<in>set ?calls. tagging_call c" by simp
  have t: "fst (tag_doc ?self ''Hi 5'') = Inr [[(''Hi'', ''O''), (''5'', ''B-PVL'')]]"
    by (simp add: demo_simps)
  from tagging_leaves_classifier_unchanged[of ?self _ "''Hi 5''"] a
  have "fold perform ?calls ?self = ?self \<and>
        tag_doc (fold perform ?calls ?self) ''Hi 5'' = tag_doc ?self ''Hi 5''"
    by blast
  with t show ?thesis by simp
qed

subsection \<open>The variant of the model\<close>

lemma variant_of_set_internal: "variant_of (set_internal m i) = variant_of m"
  by (cases m) simp_all

lemma variant_of_model_build: "variant_of (snd (model_build m)) = variant_of m"
  by (simp add: model_build_def variant_of_set_internal split: prod.splits)

lemma variant_of_model_restore_session:
  "variant_of (snd (model_restore_session m d)) = variant_of m"
  by (simp add: model_restore_session_def variant_of_set_internal split: prod.splits)

lemma variant_of_model_save_prediction_model:
  "variant_of (snd (model_save_prediction_model m d)) = variant_of m"
  by (simp add: model_save_prediction_model_def variant_of_set_internal split: prod.splits)

lemma variant_of_model_close_session: "variant_of (snd (model_close_session m)) = variant_of m"
  by (simp add: model_close_session_def variant_of_set_internal split: prod.splits)

lemma save_model_variant: "variant_of (model (snd (save_model self save_dir))) = variant_of (model self)"
proof -
  obtain r1 m1 where b: "model_build (model self) = (r1, m1)"
    by (cases "model_build (model self)")
  obtain r2 m2 where r: "model_restore_session m1 (dir_final_model (config self)) = (r2, m2)"
    by (cases "model_restore_session m1 (dir_final_model (config self))")
  obtain r3 m3 where s: "model_save_prediction_model m2 save_dir = (r3, m3)"
    by (cases "model_save_prediction_model m2 save_dir")
  from b variant_of_model_build[of "model self"] have v1: "variant_of m1 = variant_of (model self)"
    by simp
  from r variant_of_model_restore_session[of m1 "dir_final_model (config self)"] have v2: "variant_of m2 = variant_of m1"
    by simp
  from s variant_of_model_save_prediction_model[of m2 save_dir] have v3: "variant_of m3 = variant_of m2"
    by simp
  show ?thesis using b r s v1 v2 v3
    by (simp add: save_model_def split: option.splits)
qed

lemma close_session_variant:
  "variant_of (model (snd (close_session_m self))) = variant_of (model self)"
proof -
  obtain r1 m1 where b: "model_close_session (model self) = (r1, m1)"
    by (cases "model_close_session (model self)")
  with variant_of_model_close_session[of "model self"]
  have "variant_of m1 = variant_of (model self)" by simp
  with b show ?thesis by (simp add: close_session_m_def split: option.splits)
qed

lemma perform_variant: "variant_of (model (perform c self)) = variant_of (model self)"
proof (cases "tagging_call c")
  case True
  then show ?thesis by (simp add: perform_tagging_call)
next
  case False
  then show ?thesis
    by (cases c) (simp_all add: save_model_variant close_session_variant)
qed

lemma fold_perform_variant:
  "variant_of (model (fold perform calls self)) = variant_of (model self)"
  by (induction calls arbitrary: self) (simp_all add: perform_variant)

lemma load_model_Some:
  assumes "load_model lib cfg (Some url) = Inr m"
  shows "\<exists>ob. new_NERServingModel lib cfg url = Inr ob \<and> m = NERServingModel ob"
  using assms by (auto simp: load_model_def split: sum.splits)

lemma load_model_None:
  assumes "load_model lib cfg None = Inr m"
  shows "\<exists>ob m1. new_NERModel lib cfg = Inr ob \<and> model_build (NERModel ob) = (None, m1) \<and>
           model_restore_session m1 (dir_final_model cfg) = (None, m) \<and> variant_of m = Local"
proof -
  from assms obtain ob where ob: "new_NERModel lib cfg = Inr ob"
    by (auto simp: load_model_def split: sum.splits)
  obtain r1 m1 where b: "model_build (NERModel ob) = (r1, m1)"
    by (cases "model_build (NERModel ob)")
  obtain r2 m2 where r: "model_restore_session m1 (dir_final_model cfg) = (r2, m2)"
    by (cases "model_restore_session m1 (dir_final_model cfg)")
  from assms ob b r have "r1 = None" "r2 = None" "m2 = m"
    by (auto simp: load_model_def split: option.splits)
  moreover from b variant_of_model_build[of "NERModel ob"] have "variant_of m1 = Local" by simp
  with r variant_of_model_restore_session[of m1 "dir_final_model cfg"]
  have "variant_of m2 = Local" by simp
  ultimately show ?thesis using ob b r by auto
qed

lemma NERClassifier_Inr:
  assumes "NERClassifier lib LOCAL_DIR environ = Inr self"
  shows "api_url self = environ ''TF_SERVING_URL'' \<and>
         dir_final_model (config self) =
           path_join (path_join LOCAL_DIR ''models/ner'') ''model.weights/'' \<and>
         load_model lib (config self) (environ ''TF_SERVING_URL'') = Inr (model self)"
  using assms
  by (auto simp: NERClassifier_def Configure_def Let_def split: sum.splits option.splits)

text \<open>
  C9. When the constructor returns a classifier, \<open>api_url\<close> is what the environment holds
  for \<^verbatim>\<open>TF_SERVING_URL\<close>; the model is the Remote variant if and only if the variable is
  present, built by the constructor of the serving model from the configuration and the
  address, and the Local variant otherwise, built by the constructor of the local model,
  then \<^verbatim>\<open>build()\<close>, then \<^verbatim>\<open>restore_session\<close> on the directory \<^verbatim>\<open>models/ner/model.weights/\<close>
  under the directory of the module. After any sequence of calls of the ten public
  methods the model is of the same variant.
\<close>

theorem variant_selected_at_construction:
  assumes "NERClassifier lib LOCAL_DIR environ = Inr self"
  shows "api_url self = environ ''TF_SERVING_URL'' \<and>
         (variant_of (model self) = Remote \<longleftrightarrow> environ ''TF_SERVING_URL'' \<noteq> None) \<and>
         (variant_of (model self) = Local \<longleftrightarrow> environ ''TF_SERVING_URL'' = None) \<and>
         (\<forall>url. environ ''TF_SERVING_URL'' = Some url \<longrightarrow>
            (\<exists>ob. new_NERServingModel lib (config self) url = Inr ob \<and>
                  model self = NERServingModel ob)) \<and>
         (environ ''TF_SERVING_URL'' = None \<longrightarrow>
            (\<exists>ob m1. new_NERModel lib (config self) = Inr ob \<and>
                     model_build (NERModel ob) = (None, m1) \<and>
                     model_restore_session m1
                       (path_join (path_join LOCAL_DIR ''models/ner'') ''model.weights/'')
                       = (None, model self))) \<and>
         (\<forall>calls. variant_of (model (fold perform calls self)) = variant_of (model self))"
proof -
  from NERClassifier_Inr[OF assms] have u: "api_url self = environ ''TF_SERVING_URL''"
    and d: "dir_final_model (config self) =
              path_join (path_join LOCAL_DIR ''models/ner'') ''model.weights/''"
    and l: "load_model lib (config self) (environ ''TF_SERVING_URL'') = Inr (model self)"
    by simp_all
  show ?thesis
  proof (cases "environ ''TF_SERVING_URL''")
    case None
    with l load_model_None[of lib "config self" "model self"] d u show ?thesis
      by (auto simp: fold_perform_variant)
  next
    case (Some url)
    with l load_model_Some[of lib "config self" url "model self"] u show ?thesis
      by (auto simp: fold_perform_variant)
  qed
qed

text \<open>
  With \<^verbatim>\<open>TF_SERVING_URL\<close> set the classifier is remote, without it local, and each still
  is after the model was saved, a document tagged and the session closed.
\<close>

theorem variant_selected_at_construction_witness:
  "NERClassifier (demo_library demo_predict demo_process) ''/srv/lbnlp/nlp''
       [''TF_SERVING_URL'' \<mapsto> ''http://tf:8501'']
     = Inr (demo_remote demo_predict demo_process ''http://tf:8501'') \<and>
   variant_of (model (demo_remote demo_predict demo_process ''http://tf:8501'')) = Remote \<and>
   variant_of (model (fold perform [Save_model ''/tmp/export'', Tag_doc ''Hi 5'', Close_session]
      (demo_remote demo_predict demo_process ''http://tf:8501''))) = Remote \<and>
   NERClassifier (demo_library demo_predict demo_process) ''/srv/lbnlp/nlp'' Map.empty
     = Inr (demo demo_predict demo_process) \<and>
   variant_of (model (demo demo_predict demo_process)) = Local \<and>
   variant_of (model (fold perform [Save_model ''/tmp/export'', Tag_doc ''Hi 5'', Close_session]
      (demo demo_predict demo_process))) = Local"
proof -
  let ?remote = "demo_remote demo_predict demo_process ''http://tf:8501''"
  let ?local = "demo demo_predict demo_process"
  let ?calls = "[Save_model ''/tmp/export'', Tag_doc ''Hi 5'', Close_session]"
  have c: "NERClassifier (demo_library demo_predict demo_process) ''/srv/lbnlp/nlp''
       [''TF_SERVING_URL'' \<mapsto> ''http://tf:8501''] = Inr ?remote"
    by (simp add: NERClassifier_def Configure_def load_model_def demo_library_def path_join_def
          demo_remote_def demo_config_def)
  have d: "NERClassifier (demo_library demo_predict demo_process) ''/srv/lbnlp/nlp'' Map.empty
       = Inr ?local"
    by (simp add: NERClassifier_def Configure_def load_model_def demo_library_def path_join_def
          demo_def demo_config_def model_build_def model_restore_session_def demo_obj_def)
  from variant_selected_at_construction[OF c]
  have v: "variant_of (model ?remote) = Remote"
    and f: "\<forall>calls. variant_of (model (fold perform calls ?remote)) = variant_of (model ?remote)"
    by simp_all
  from f have r: "variant_of (model (fold perform ?calls ?remote)) = variant_of (model ?remote)"
    by (rule spec)
  from variant_selected_at_construction[OF d]
  have w: "variant_of (model ?local) = Local"
    and g: "\<forall>calls. variant_of (model (fold perform calls ?local)) = variant_of (model ?local)"
    by simp_all
  from g have l: "variant_of (model (fold perform ?calls ?local)) = variant_of (model ?local)"
    by (rule spec)
  from v r w l c d show ?thesis by simp
qed

end
